theory Spec2Isabelle
  imports Complex_Main "HOL-Library.FSet"
begin

section \<open>Data model\<close>

text \<open>
  The exceptions the modelled Python code can raise: a missing dictionary key, a value
  that \<^verbatim>\<open>list.index\<close> does not find, a list read out of range, and an exception of the
  HTTP client that the watcher does not catch.
\<close>

datatype py_error = KeyError | ValueError | IndexError | OtherHTTPError

text \<open>
  Modelled from the spec: the \<^verbatim>\<open>Pool\<close> dataclass (imported from \<^verbatim>\<open>src.contract\<close>) is
  not among the source files. The record has the identifier (the contract address) of
  section 3 of the specification and the attributes that \<^verbatim>\<open>route.py\<close> reads and writes, under the names
  used there. The transient attributes \<^verbatim>\<open>amount_in\<close> and \<^verbatim>\<open>amount_out\<close> of a pool carry the
  prefix \<open>pool_\<close>, since \<^verbatim>\<open>Route\<close> has an attribute \<^verbatim>\<open>amount_in\<close> as well. The fee rates are
  Python floats; a finite float is a rational number, and the functions modelled here
  only pass the rates on, they do no arithmetic with them.
\<close>

record Pool =
  address :: string
  token1_denom :: string
  token2_denom :: string
  input_reserves :: int
  output_reserves :: int
  lp_fee :: rat
  protocol_fee :: rat
  fee_from_input :: bool
  pool_amount_in :: int
  pool_amount_out :: int

text \<open>
  Modelled from the spec: the \<^verbatim>\<open>Swap\<close> class (imported from \<^verbatim>\<open>src.swap\<close>) is not among the
  source files either; \<^verbatim>\<open>order_pools\<close> reads the two attributes below.
\<close>

record Swap =
  contract_address :: string
  output_denom :: string

text \<open>
  Pools are Python objects: the registry \<^verbatim>\<open>contracts\<close> and the list \<^verbatim>\<open>Route.pools\<close> hold
  references to them, and \<^verbatim>\<open>calculate_and_set_profit\<close> writes to the objects through
  the list. A reference is a number, the store maps each reference to the current value
  of its object, and a list may hold the same reference more than once.
\<close>

type_synonym ref = nat

type_synonym store = "ref \<Rightarrow> Pool"

record Route =
  pools :: "ref list"
  profit :: int
  optimal_amount_in :: int
  amount_in :: int

section \<open>Route ordering (\<^verbatim>\<open>route.py\<close>, lines 19 to 73)\<close>

text \<open>
  \<^verbatim>\<open>list.index(x)\<close>: the position of the first element equal to \<open>x\<close>, or no position
  (Python raises ValueError). Pools are compared as dataclasses, field by field, so
  the search runs over the values the store holds for the references of the list.
\<close>

fun index_of :: "'a list \<Rightarrow> 'a \<Rightarrow> nat option" where
  "index_of [] x = None"
| "index_of (y # ys) x = (if y = x then Some 0 else map_option Suc (index_of ys x))"

definition order_first_pool :: "string \<Rightarrow> string \<Rightarrow> Route \<Rightarrow> Route" where
  "order_first_pool input_denom arb_denom r =
     (if input_denom \<noteq> arb_denom then r\<lparr>pools := rev (pools r)\<rparr> else r)"

definition order_second_pool :: "store \<Rightarrow> string \<Rightarrow> string \<Rightarrow> Route \<Rightarrow> py_error + Route" where
  "order_second_pool h input_denom arb_denom r =
     (case pools r of
        [] \<Rightarrow> Inl IndexError
      | first_pool # _ \<Rightarrow>
          (let out_denom =
                 (if token1_denom (h first_pool) \<noteq> arb_denom
                  then token1_denom (h first_pool)
                  else token2_denom (h first_pool))
           in Inr (if input_denom \<noteq> out_denom then r\<lparr>pools := rev (pools r)\<rparr> else r)))"

definition order_last_pool :: "string \<Rightarrow> string \<Rightarrow> Route \<Rightarrow> Route" where
  "order_last_pool input_denom arb_denom r =
     (if input_denom = arb_denom then r\<lparr>pools := rev (pools r)\<rparr> else r)"

text \<open>
  \<^verbatim>\<open>_order_second_pool\<close> also receives \<^verbatim>\<open>contracts\<close> and never reads it; the model leaves
  that argument out. Its read of \<^verbatim>\<open>self.pools[0]\<close> raises IndexError on an empty list.

  \<^verbatim>\<open>order_pools\<close>: the \<^verbatim>\<open>match\<close> statement has the cases 0, 1 and 2 and no default, so
  any other index leaves the route as it is.
\<close>

definition order_pools ::
  "store \<Rightarrow> (string \<rightharpoonup> ref) \<Rightarrow> Swap \<Rightarrow> string \<Rightarrow> Route \<Rightarrow> py_error + Route" where
  "order_pools h contracts swap arb_denom r =
     (case contracts (contract_address swap) of
        None \<Rightarrow> Inl KeyError
      | Some target \<Rightarrow>
          (case index_of (map h (pools r)) (h target) of
             None \<Rightarrow> Inl ValueError
           | Some swapped_self_index \<Rightarrow>
               (let input_denom = output_denom swap
                in if swapped_self_index = 0 then
                     Inr (order_first_pool input_denom arb_denom r)
                   else if swapped_self_index = 1 then
                     order_second_pool h input_denom arb_denom r
                   else if swapped_self_index = 2 then
                     Inr (order_last_pool input_denom arb_denom r)
                   else Inr r)))"

text \<open>
  The condition under which \<^verbatim>\<open>order_pools\<close> reaches a call of \<^verbatim>\<open>self.pools.reverse()\<close>,
  collected from the three helper methods: it says whether a swap triggers a reversal,
  also where the reversed list equals the list.
\<close>

definition reversal_triggered ::
  "store \<Rightarrow> (string \<rightharpoonup> ref) \<Rightarrow> Swap \<Rightarrow> string \<Rightarrow> Route \<Rightarrow> bool" where
  "reversal_triggered h contracts swap arb_denom r =
     (case contracts (contract_address swap) of
        None \<Rightarrow> False
      | Some target \<Rightarrow>
          (case index_of (map h (pools r)) (h target) of
             None \<Rightarrow> False
           | Some i \<Rightarrow>
               if i = 0 then output_denom swap \<noteq> arb_denom
               else if i = 1 then
                 output_denom swap \<noteq>
                   (if token1_denom (h (hd (pools r))) \<noteq> arb_denom
                    then token1_denom (h (hd (pools r)))
                    else token2_denom (h (hd (pools r))))
               else if i = 2 then output_denom swap = arb_denom
               else False))"

subsection \<open>The denom cycle of a route\<close>

text \<open>
  Modelled from the spec: the code that gives a pool its input and output denom is not
  among the source files. Section 3 of the specification defines the cycle: the first
  pool takes \<open>arb_denom\<close>, the output denom of a pool is the input denom of the next one,
  and the output denom of the last pool is \<open>arb_denom\<close> again. A pool trades one of its
  two denoms for the other; \<open>orientation\<close> walks the pools from a starting denom and
  lists the input and the output denom of each pool, or fails at a pool that does not
  hold the denom that reaches it.
\<close>

definition swap_through :: "Pool \<Rightarrow> string \<Rightarrow> string option" where
  "swap_through p d =
     (if token1_denom p = d then Some (token2_denom p)
      else if token2_denom p = d then Some (token1_denom p)
      else None)"

fun orientation :: "store \<Rightarrow> string \<Rightarrow> ref list \<Rightarrow> (string \<times> string) list option" where
  "orientation h d [] = Some []"
| "orientation h d (p # ps) =
     (case swap_through (h p) d of
        None \<Rightarrow> None
      | Some e \<Rightarrow> map_option ((#) (d, e)) (orientation h e ps))"

definition denom_cycle :: "store \<Rightarrow> string \<Rightarrow> ref list \<Rightarrow> bool" where
  "denom_cycle h arb_denom ps =
     (case orientation h arb_denom ps of
        None \<Rightarrow> False
      | Some ios \<Rightarrow> ios \<noteq> [] \<and> snd (last ios) = arb_denom)"

section \<open>Balance-constrained sizing (\<^verbatim>\<open>route.py\<close>, lines 130 to 139)\<close>

definition calculate_and_set_amount_in :: "int \<Rightarrow> int \<Rightarrow> Route \<Rightarrow> Route" where
  "calculate_and_set_amount_in account_balance gas_fee r =
     (if optimal_amount_in r \<le> 0 then r
      else if optimal_amount_in r > account_balance - gas_fee then
        r\<lparr>amount_in := account_balance - gas_fee\<rparr>
      else r\<lparr>amount_in := optimal_amount_in r\<rparr>)"

section \<open>Swap simulation (\<^verbatim>\<open>route.py\<close>, lines 75 to 95)\<close>

text \<open>
  \<^verbatim>\<open>calculate_swap\<close> (imported from \<^verbatim>\<open>src.swap\<close>) is not among the source files; the
  simulation takes it as a parameter. It receives the input and output reserves, the
  amount in, the two fee rates and the fee mode, and returns three values, of which the
  loop keeps the first, the amount out.
\<close>

type_synonym ('a, 'b) swap_fn =
  "int \<Rightarrow> int \<Rightarrow> int \<Rightarrow> rat \<Rightarrow> rat \<Rightarrow> bool \<Rightarrow> int \<times> 'a \<times> 'b"

text \<open>
  One iteration of the loop, for index \<open>i\<close>: it writes \<^verbatim>\<open>amount_in\<close> of the object
  \<^verbatim>\<open>self.pools[i]\<close>, then reads that object's attributes for \<^verbatim>\<open>calculate_swap\<close> and writes
  its \<^verbatim>\<open>amount_out\<close>.
\<close>

definition profit_step ::
  "('a, 'b) swap_fn \<Rightarrow> int \<Rightarrow> ref list \<Rightarrow> store \<Rightarrow> nat \<Rightarrow> store" where
  "profit_step calculate_swap route_amount_in ps h i =
     (let pool = ps ! i;
          h1 = h(pool := (h pool)\<lparr>pool_amount_in :=
                  (if i = 0 then route_amount_in else pool_amount_out (h (ps ! (i - 1))))\<rparr>);
          out = fst (calculate_swap (input_reserves (h1 pool)) (output_reserves (h1 pool))
                   (pool_amount_in (h1 pool)) (lp_fee (h1 pool)) (protocol_fee (h1 pool))
                   (fee_from_input (h1 pool)))
      in h1(pool := (h1 pool)\<lparr>pool_amount_out := out\<rparr>))"

text \<open>The store after the first \<open>n\<close> iterations of the loop over \<^verbatim>\<open>enumerate(self.pools)\<close>.\<close>

definition profit_states ::
  "('a, 'b) swap_fn \<Rightarrow> Route \<Rightarrow> store \<Rightarrow> nat \<Rightarrow> store" where
  "profit_states calculate_swap r h n =
     foldl (profit_step calculate_swap (amount_in r) (pools r)) h [0..<n]"

text \<open>
  \<^verbatim>\<open>calculate_and_set_profit\<close> returns the profit; the model returns it with the store and
  the route as the call leaves them. On an empty list the loop does nothing and
  \<^verbatim>\<open>self.pools[-1]\<close> raises IndexError.
\<close>

definition calculate_and_set_profit ::
  "('a, 'b) swap_fn \<Rightarrow> store \<Rightarrow> Route \<Rightarrow> py_error + (int \<times> store \<times> Route)" where
  "calculate_and_set_profit calculate_swap h r =
     (let h' = profit_states calculate_swap r h (length (pools r))
      in if pools r = [] then Inl IndexError
         else
           (let p = pool_amount_out (h' (last (pools r))) - pool_amount_in (h' (hd (pools r)))
            in Inr (p, h', r\<lparr>profit := p\<rparr>)))"

text \<open>
  The amount out that \<^verbatim>\<open>calculate_swap\<close> returns for the reserves and fees of a pool and an
  amount in.
\<close>

definition pool_swap_out :: "('a, 'b) swap_fn \<Rightarrow> Pool \<Rightarrow> int \<Rightarrow> int" where
  "pool_swap_out calculate_swap p a =
     fst (calculate_swap (input_reserves p) (output_reserves p) a (lp_fee p) (protocol_fee p)
            (fee_from_input p))"

text \<open>Two pool values that differ at most in their transient amounts.\<close>

definition same_pool_data :: "Pool \<Rightarrow> Pool \<Rightarrow> bool" where
  "same_pool_data p q \<longleftrightarrow>
     p\<lparr>pool_amount_in := 0, pool_amount_out := 0\<rparr> = q\<lparr>pool_amount_in := 0, pool_amount_out := 0\<rparr>"

section \<open>Mempool watcher (\<^verbatim>\<open>cosmwasm.py\<close>, lines 37 to 95)\<close>

text \<open>
  What one call of \<^verbatim>\<open>httpx.get\<close> on the mempool endpoint can do: raise one of the four
  exceptions that \<^verbatim>\<open>_query_unconfirmed_txs\<close> catches, raise another one, or deliver a
  response. A response body is not JSON, or JSON without the key \<^verbatim>\<open>result\<close>, or JSON
  whose \<^verbatim>\<open>result\<close> is null or an object with or without the key \<^verbatim>\<open>txs\<close>.
\<close>

datatype mempool = MempoolNull | Mempool "string list option"

datatype body = NotJson | NoResult | Result mempool

datatype rpc_outcome =
  ConnectTimeout | ReadTimeout | ConnectError | RemoteProtocolError
  | OtherException | Response body

definition query_unconfirmed_txs :: "rpc_outcome \<Rightarrow> py_error + body option" where
  "query_unconfirmed_txs ev =
     (case ev of
        Response b \<Rightarrow> Inr (Some b)
      | ConnectTimeout \<Rightarrow> Inr None
      | ReadTimeout \<Rightarrow> Inr None
      | ConnectError \<Rightarrow> Inr None
      | RemoteProtocolError \<Rightarrow> Inr None
      | OtherException \<Rightarrow> Inl OtherHTTPError)"

text \<open>
  \<^verbatim>\<open>_get_mempool_from_response\<close> returns \<^verbatim>\<open>response.json()['result']\<close>: None after a
  JSONDecodeError, None as well when the result is null; a missing key raises KeyError,
  which is not caught.
\<close>

definition get_mempool_from_response :: "body \<Rightarrow> py_error + string list option option" where
  "get_mempool_from_response b =
     (case b of
        NotJson \<Rightarrow> Inr None
      | NoResult \<Rightarrow> Inl KeyError
      | Result MempoolNull \<Rightarrow> Inr None
      | Result (Mempool txs) \<Rightarrow> Inr (Some txs))"

text \<open>
  The inner loop over \<^verbatim>\<open>mempool['txs']\<close>: its state is the list \<^verbatim>\<open>new_txs\<close> and the set
  \<^verbatim>\<open>self.already_seen\<close>.
\<close>

definition collect_step :: "string list \<times> string fset \<Rightarrow> string \<Rightarrow> string list \<times> string fset" where
  "collect_step st tx =
     (case st of (new_txs, already_seen) \<Rightarrow>
        if tx |\<in>| already_seen then (new_txs, already_seen)
        else (new_txs @ [tx], finsert tx already_seen))"

definition collect_new :: "string fset \<Rightarrow> string list \<Rightarrow> string list \<times> string fset" where
  "collect_new already_seen txs = foldl collect_step ([], already_seen) txs"

text \<open>
  The cache as lines 46 and 47 leave it, before the node is queried.
\<close>

definition clear_if_full :: "string fset \<Rightarrow> string fset" where
  "clear_if_full already_seen = (if fcard already_seen > 200 then {||} else already_seen)"

text \<open>
  One pass through the body of \<^verbatim>\<open>while True\<close>: it ends in \<^verbatim>\<open>continue\<close> (or falls off the
  end of the body), in \<^verbatim>\<open>return new_txs\<close>, or in an exception. The cache is part of every
  exit. \<^verbatim>\<open>time.sleep(1)\<close> has no effect on the values and is left out.
\<close>

datatype poll_exit =
  Continue "string fset" | Return "string list" "string fset" | Raise py_error "string fset"

definition poll_once :: "string fset \<Rightarrow> rpc_outcome \<Rightarrow> poll_exit" where
  "poll_once already_seen ev =
     (let seen = clear_if_full already_seen
      in case query_unconfirmed_txs ev of
           Inl e \<Rightarrow> Raise e seen
         | Inr None \<Rightarrow> Continue seen
         | Inr (Some response) \<Rightarrow>
             (case get_mempool_from_response response of
                Inl e \<Rightarrow> Raise e seen
              | Inr None \<Rightarrow> Continue seen
              | Inr (Some None) \<Rightarrow> Continue seen
              | Inr (Some (Some txs)) \<Rightarrow>
                  if txs = [] then Continue seen
                  else
                    (case collect_new seen txs of (new_txs, seen') \<Rightarrow>
                       if new_txs \<noteq> [] then Return new_txs seen' else Continue seen')))"

text \<open>
  The loop runs against the outcomes of the successive queries of the node. It has no
  bound: on a finite list of outcomes, none of which makes it return or raise, it is
  still polling when the list ends, and the result is \<open>None\<close>.
\<close>

fun query_node_for_new_mempool_txs ::
  "string fset \<Rightarrow> rpc_outcome list \<Rightarrow> poll_exit option" where
  "query_node_for_new_mempool_txs already_seen [] = None"
| "query_node_for_new_mempool_txs already_seen (ev # evs) =
     (case poll_once already_seen ev of
        Continue seen \<Rightarrow> query_node_for_new_mempool_txs seen evs
      | Return new_txs seen \<Rightarrow> Some (Return new_txs seen)
      | Raise e seen \<Rightarrow> Some (Raise e seen))"

text \<open>
  The cache as it stands when the batch that makes the loop return is processed, that is
  after lines 46 and 47 of the returning pass; \<open>None\<close> where the loop does not return.
\<close>

fun cache_at_return :: "string fset \<Rightarrow> rpc_outcome list \<Rightarrow> string fset option" where
  "cache_at_return already_seen [] = None"
| "cache_at_return already_seen (ev # evs) =
     (case poll_once already_seen ev of
        Continue seen \<Rightarrow> cache_at_return seen evs
      | Return new_txs seen \<Rightarrow> Some (clear_if_full already_seen)
      | Raise e seen \<Rightarrow> None)"

section \<open>Example data\<close>

text \<open>
  Five pools over four denoms, with \<open>ujuno\<close> as the base asset: the references 0, 1, 2
  form a cycle of three pools, the references 0, 1, 3, 4 a cycle of four pools.
\<close>

definition example_pool :: "string \<Rightarrow> string \<Rightarrow> string \<Rightarrow> Pool" where
  "example_pool a d1 d2 =
     \<lparr>address = a, token1_denom = d1, token2_denom = d2,
      input_reserves = 1000, output_reserves = 1000,
      lp_fee = 3 / 1000, protocol_fee = 0, fee_from_input = True,
      pool_amount_in = 0, pool_amount_out = 0\<rparr>"

definition example_store :: store where
  "example_store n =
     (if n = 0 then example_pool ''juno1ja'' ''ujuno'' ''uatom''
      else if n = 1 then example_pool ''juno1ao'' ''uatom'' ''uosmo''
      else if n = 2 then example_pool ''juno1oj'' ''uosmo'' ''ujuno''
      else if n = 3 then example_pool ''juno1ou'' ''uosmo'' ''uusdc''
      else example_pool ''juno1uj'' ''uusdc'' ''ujuno'')"

definition example_contracts :: "string \<rightharpoonup> ref" where
  "example_contracts =
     map_of [(''juno1ja'', 0), (''juno1ao'', 1), (''juno1oj'', 2), (''juno1ou'', 3),
             (''juno1uj'', 4)]"

text \<open>\<^verbatim>\<open>Route(pools=ps)\<close>: the other fields take the defaults of the dataclass.\<close>

definition new_route :: "ref list \<Rightarrow> Route" where
  "new_route ps = \<lparr>pools = ps, profit = 0, optimal_amount_in = 0, amount_in = 0\<rparr>"

definition swap_on :: "string \<Rightarrow> string \<Rightarrow> Swap" where
  "swap_on a d = \<lparr>contract_address = a, output_denom = d\<rparr>"

text \<open>
  Modelled from the spec: \<^verbatim>\<open>calculate_swap\<close> is not among the source files. This instance
  of the parameter, used in the examples only, follows section 4.3 and the glossary of
  the specification: the constant-product formula
  \<^verbatim>\<open>output = reserve_out * input / (reserve_in + input)\<close>, with the fee rate
  \<^verbatim>\<open>lp_fee + protocol_fee\<close> taken from the input before the division or from the output
  after it, rounded down to an integer. The two further results are not modelled.
\<close>

definition constant_product_swap :: "(unit, unit) swap_fn" where
  "constant_product_swap reserves_in reserves_out a lp pf from_input =
     (let keep = 1 - (lp + pf)
      in if from_input then
           (\<lfloor>of_int reserves_out * (of_int a * keep) / (of_int reserves_in + of_int a * keep)\<rfloor>,
            (), ())
         else
           (\<lfloor>of_int reserves_out * of_int a / (of_int reserves_in + of_int a) * keep\<rfloor>,
            (), ()))"

text \<open>
  Transaction identifiers \<open>t\<close>, \<open>tt\<close>, \<open>ttt\<close> and so on, a cache that holds the first \<open>n\<close> of
  them, and the outcome of a query that delivers a list of identifiers.
\<close>

definition example_tx :: "nat \<Rightarrow> string" where
  "example_tx n = replicate (Suc n) CHR ''t''"

definition example_cache :: "nat \<Rightarrow> string fset" where
  "example_cache n = fset_of_list (map example_tx [0..<n])"

definition txs_response :: "string list \<Rightarrow> rpc_outcome" where
  "txs_response txs = Response (Result (Mempool (Some txs)))"

section \<open>Properties of the route ordering\<close>

lemma index_of_SomeD:
  "index_of xs x = Some i \<Longrightarrow> i < length xs \<and> xs ! i = x \<and> (\<forall>j<i. xs ! j \<noteq> x)"
proof (induction xs arbitrary: i)
  case Nil
  then show ?case by simp
next
  case (Cons y ys)
  show ?case
  proof (cases "y = x")
    case True
    with Cons.prems show ?thesis by simp
  next
    case False
    with Cons.prems obtain k where k: "index_of ys x = Some k" "i = Suc k"
      by auto
    from Cons.IH [OF k(1)] False k(2) show ?thesis
      by (auto simp: nth_Cons split: nat.splits)
  qed
qed

lemma index_of_mem: "x \<in> set xs \<Longrightarrow> \<exists>i. index_of xs x = Some i"
  by (induction xs) auto

lemma order_second_pool_nonempty:
  "pools r \<noteq> [] \<Longrightarrow>
   order_second_pool h d arb r =
     Inr (if d \<noteq> (if token1_denom (h (hd (pools r))) \<noteq> arb
                    then token1_denom (h (hd (pools r)))
                    else token2_denom (h (hd (pools r))))
          then r\<lparr>pools := rev (pools r)\<rparr> else r)"
  by (cases "pools r") (simp_all add: order_second_pool_def Let_def)

text \<open>
  Where the registry knows the pool of the swap and the route holds it, \<^verbatim>\<open>order_pools\<close>
  raises nothing, and it reverses the list exactly when \<open>reversal_triggered\<close> holds.
\<close>

lemma order_pools_decision:
  assumes "contracts (contract_address swap) = Some target"
    and "index_of (map h (pools r)) (h target) = Some i"
  shows "order_pools h contracts swap arb r =
     Inr (if reversal_triggered h contracts swap arb r then r\<lparr>pools := rev (pools r)\<rparr> else r)"
proof -
  from index_of_SomeD [OF assms(2)] have ne: "pools r \<noteq> []" by auto
  show ?thesis
    using assms ne
    by (simp add: order_pools_def reversal_triggered_def order_first_pool_def
        order_last_pool_def order_second_pool_nonempty Let_def)
qed

lemma order_pools_InrD:
  assumes "order_pools h contracts swap arb r = Inr r'"
  shows "\<exists>target i. contracts (contract_address swap) = Some target
           \<and> index_of (map h (pools r)) (h target) = Some i"
  using assms by (auto simp: order_pools_def split: option.splits)

lemma swap_through_back:
  "swap_through p d = Some e \<Longrightarrow> swap_through p e = Some d"
  by (auto simp: swap_through_def split: if_splits)

lemma denom_cycle3:
  "denom_cycle h arb [a, b, c] \<longleftrightarrow>
     (\<exists>x y. swap_through (h a) arb = Some x \<and> swap_through (h b) x = Some y
        \<and> swap_through (h c) y = Some arb)"
  by (auto simp: denom_cycle_def split: option.splits)

lemma orientation3:
  "swap_through (h a) arb = Some x \<Longrightarrow> swap_through (h b) x = Some y
    \<Longrightarrow> swap_through (h c) y = Some z
    \<Longrightarrow> orientation h arb [a, b, c] = Some [(arb, x), (x, y), (y, z)]"
  by simp

lemma example_store_simps:
  "example_store 0 = example_pool ''juno1ja'' ''ujuno'' ''uatom''"
  "example_store (Suc 0) = example_pool ''juno1ao'' ''uatom'' ''uosmo''"
  "example_store 1 = example_pool ''juno1ao'' ''uatom'' ''uosmo''"
  "example_store 2 = example_pool ''juno1oj'' ''uosmo'' ''ujuno''"
  "example_store 3 = example_pool ''juno1ou'' ''uosmo'' ''uusdc''"
  "example_store 4 = example_pool ''juno1uj'' ''uusdc'' ''ujuno''"
  by (simp_all add: example_store_def)

lemma example_store_inj: "example_store m = example_store n \<longleftrightarrow> min m 4 = min n 4"
  by (simp add: example_store_def example_pool_def)

lemma example_index_simps:
  "index_of (map example_store [0, 1, 2]) (example_store 0) = Some 0"
  "index_of (map example_store [0, 1, 2]) (example_store 1) = Some 1"
  "index_of (map example_store [0, 1, 2]) (example_store 2) = Some 2"
  "index_of (map example_store [2, 1, 0]) (example_store 0) = Some 2"
  "index_of (map example_store [0, 1, 3, 4]) (example_store 4) = Some 3"
  by (simp_all add: example_store_inj)

lemma example_contracts_simps:
  "example_contracts ''juno1ja'' = Some 0"
  "example_contracts ''juno1ao'' = Some 1"
  "example_contracts ''juno1oj'' = Some 2"
  "example_contracts ''juno1ou'' = Some 3"
  "example_contracts ''juno1uj'' = Some 4"
  by (simp_all add: example_contracts_def)

text \<open>
  Claim C10. Where the registry maps the address of the swap to a pool that the route
  holds, \<^verbatim>\<open>order_pools\<close> raises nothing and leaves \<^verbatim>\<open>route.pools\<close> either exactly as it
  was or exactly reversed, so the set of pools is the same; when the index of the
  swapped pool is 3 or more, the list is unchanged.
\<close>

theorem order_pools_unchanged_or_reversed:
  assumes "contracts (contract_address swap) = Some target"
    and "h target \<in> set (map h (pools r))"
  shows "\<exists>r' i. order_pools h contracts swap arb r = Inr r'
     \<and> index_of (map h (pools r)) (h target) = Some i
     \<and> (pools r' = pools r \<or> pools r' = rev (pools r))
     \<and> set (pools r') = set (pools r)
     \<and> (3 \<le> i \<longrightarrow> pools r' = pools r)"
proof -
  from index_of_mem [OF assms(2)] obtain i
    where i: "index_of (map h (pools r)) (h target) = Some i" by blast
  have "3 \<le> i \<Longrightarrow> \<not> reversal_triggered h contracts swap arb r"
    using assms(1) i by (simp add: reversal_triggered_def)
  moreover have "order_pools h contracts swap arb r =
     Inr (if reversal_triggered h contracts swap arb r then r\<lparr>pools := rev (pools r)\<rparr> else r)"
    using assms(1) i by (rule order_pools_decision)
  ultimately show ?thesis using i
    by auto
qed

theorem order_pools_unchanged_or_reversed_witness:
  "example_contracts (contract_address (swap_on ''juno1uj'' ''ujuno'')) = Some 4
   \<and> example_store 4 \<in> set (map example_store (pools (new_route [0, 1, 3, 4])))
   \<and> (\<exists>r' i. order_pools example_store example_contracts (swap_on ''juno1uj'' ''ujuno'')
          ''ujuno'' (new_route [0, 1, 3, 4]) = Inr r'
        \<and> index_of (map example_store (pools (new_route [0, 1, 3, 4]))) (example_store 4) = Some i
        \<and> (pools r' = pools (new_route [0, 1, 3, 4]) \<or> pools r' = rev (pools (new_route [0, 1, 3, 4])))
        \<and> set (pools r') = set (pools (new_route [0, 1, 3, 4]))
        \<and> (3 \<le> i \<longrightarrow> pools r' = pools (new_route [0, 1, 3, 4])))"
proof -
  have h1: "example_contracts (contract_address (swap_on ''juno1uj'' ''ujuno'')) = Some 4"
    by (simp add: example_contracts_def swap_on_def)
  have h2: "example_store 4 \<in> set (map example_store (pools (new_route [0, 1, 3, 4])))"
    by (simp add: new_route_def)
  from order_pools_unchanged_or_reversed
         [where contracts = example_contracts and swap = "swap_on ''juno1uj'' ''ujuno''"
            and target = 4 and h = example_store and r = "new_route [0, 1, 3, 4]"
            and arb = "''ujuno''"] h1 h2
  show ?thesis by blast
qed

text \<open>
  Claim C4, as amended. \<^verbatim>\<open>order_pools\<close> decides by the index of the swapped pool: at
  index 0 it reverses exactly when the output denom of the swap differs from
  \<open>arb_denom\<close>; at index 1 it reverses exactly when that denom differs from the outward
  denom of the first pool (\<^verbatim>\<open>token2_denom\<close> if \<^verbatim>\<open>token1_denom\<close> is \<open>arb_denom\<close>, else
  \<^verbatim>\<open>token1_denom\<close>); at index 2, the last position of a route of three pools, it
  reverses exactly when the output denom of the swap is \<open>arb_denom\<close>; at an index of 3 or
  more it never reverses.
\<close>

theorem order_pools_position_rules:
  assumes "contracts (contract_address swap) = Some target"
    and "index_of (map h (pools r)) (h target) = Some i"
  shows "(i = 0 \<longrightarrow> order_pools h contracts swap arb r =
            Inr (if output_denom swap \<noteq> arb then r\<lparr>pools := rev (pools r)\<rparr> else r))
     \<and> (i = 1 \<longrightarrow> order_pools h contracts swap arb r =
            Inr (if output_denom swap \<noteq>
                     (if token1_denom (h (hd (pools r))) = arb
                      then token2_denom (h (hd (pools r)))
                      else token1_denom (h (hd (pools r))))
                 then r\<lparr>pools := rev (pools r)\<rparr> else r))
     \<and> (i = 2 \<longrightarrow> order_pools h contracts swap arb r =
            Inr (if output_denom swap = arb then r\<lparr>pools := rev (pools r)\<rparr> else r))
     \<and> (3 \<le> i \<longrightarrow> order_pools h contracts swap arb r = Inr r)"
proof -
  have "order_pools h contracts swap arb r =
     Inr (if reversal_triggered h contracts swap arb r then r\<lparr>pools := rev (pools r)\<rparr> else r)"
    using assms by (rule order_pools_decision)
  then show ?thesis
    using assms by (auto simp: reversal_triggered_def)
qed

theorem order_pools_position_rules_witness:
  "order_pools example_store example_contracts (swap_on ''juno1ja'' ''uatom'') ''ujuno''
      (new_route [0, 1, 2]) = Inr (new_route [2, 1, 0])
   \<and> order_pools example_store example_contracts (swap_on ''juno1ao'' ''uosmo'') ''ujuno''
      (new_route [0, 1, 2]) = Inr (new_route [2, 1, 0])
   \<and> order_pools example_store example_contracts (swap_on ''juno1oj'' ''ujuno'') ''ujuno''
      (new_route [0, 1, 2]) = Inr (new_route [2, 1, 0])
   \<and> order_pools example_store example_contracts (swap_on ''juno1uj'' ''ujuno'') ''ujuno''
      (new_route [0, 1, 3, 4]) = Inr (new_route [0, 1, 3, 4])"
proof -
  have c: "example_contracts (contract_address (swap_on ''juno1ja'' ''uatom'')) = Some 0"
    "example_contracts (contract_address (swap_on ''juno1ao'' ''uosmo'')) = Some 1"
    "example_contracts (contract_address (swap_on ''juno1oj'' ''ujuno'')) = Some 2"
    "example_contracts (contract_address (swap_on ''juno1uj'' ''ujuno'')) = Some 4"
    by (simp_all add: swap_on_def example_contracts_simps)
  have i: "index_of (map example_store (pools (new_route [0, 1, 2]))) (example_store 0) = Some 0"
    "index_of (map example_store (pools (new_route [0, 1, 2]))) (example_store 1) = Some 1"
    "index_of (map example_store (pools (new_route [0, 1, 2]))) (example_store 2) = Some 2"
    "index_of (map example_store (pools (new_route [0, 1, 3, 4]))) (example_store 4) = Some 3"
    by (simp_all add: new_route_def example_store_inj)
  note r0 = order_pools_position_rules [where h = example_store and contracts = example_contracts, OF c(1) i(1), of "''ujuno''"]
  note r1 = order_pools_position_rules [where h = example_store and contracts = example_contracts, OF c(2) i(2), of "''ujuno''"]
  note r2 = order_pools_position_rules [where h = example_store and contracts = example_contracts, OF c(3) i(3), of "''ujuno''"]
  note r3 = order_pools_position_rules [where h = example_store and contracts = example_contracts, OF c(4) i(4), of "''ujuno''"]
  from r0 r1 r2 r3 show ?thesis
    by (simp add: swap_on_def new_route_def example_store_simps example_pool_def
        del: One_nat_def)
qed

text \<open>
  Claim C4 as stated fails: in a route of four pools the last position is index 3, which
  no case of the \<^verbatim>\<open>match\<close> statement handles. A swap on the last pool whose output denom
  is \<open>arb_denom\<close> leaves the list as it is, where the claim has it reversed.
\<close>

theorem order_pools_last_of_four_counterexample:
  "denom_cycle example_store ''ujuno'' [0, 1, 3, 4]
   \<and> example_contracts (contract_address (swap_on ''juno1uj'' ''ujuno'')) = Some 4
   \<and> index_of (map example_store [0, 1, 3, 4]) (example_store 4) = Some (length [0, 1, 3, 4 :: nat] - 1)
   \<and> output_denom (swap_on ''juno1uj'' ''ujuno'') = ''ujuno''
   \<and> order_pools example_store example_contracts (swap_on ''juno1uj'' ''ujuno'') ''ujuno''
        (new_route [0, 1, 3, 4]) = Inr (new_route [0, 1, 3, 4])
   \<and> pools (new_route [0, 1, 3, 4]) \<noteq> rev (pools (new_route [0, 1, 3, 4]))"
  by (simp add: order_pools_def example_store_inj example_contracts_simps swap_on_def
      new_route_def denom_cycle_def swap_through_def example_store_simps example_pool_def)

text \<open>
  Claim C9. Two calls of \<^verbatim>\<open>order_pools\<close> on the same route, with swaps that each trigger
  a reversal, give back the original list of pools (and the original route).
\<close>

theorem order_pools_double_reversal:
  assumes "order_pools h contracts swap1 arb r = Inr r1"
    and "reversal_triggered h contracts swap1 arb r"
    and "order_pools h contracts swap2 arb r1 = Inr r2"
    and "reversal_triggered h contracts swap2 arb r1"
  shows "pools r1 = rev (pools r) \<and> pools r2 = pools r \<and> r2 = r"
proof -
  from order_pools_InrD [OF assms(1)] obtain t1 i1
    where a: "contracts (contract_address swap1) = Some t1"
      "index_of (map h (pools r)) (h t1) = Some i1" by blast
  have "order_pools h contracts swap1 arb r =
     Inr (if reversal_triggered h contracts swap1 arb r then r\<lparr>pools := rev (pools r)\<rparr> else r)"
    using a by (rule order_pools_decision)
  with assms(1,2) have r1: "r1 = r\<lparr>pools := rev (pools r)\<rparr>" by simp
  from order_pools_InrD [OF assms(3)] obtain t2 i2
    where b: "contracts (contract_address swap2) = Some t2"
      "index_of (map h (pools r1)) (h t2) = Some i2" by blast
  have "order_pools h contracts swap2 arb r1 =
     Inr (if reversal_triggered h contracts swap2 arb r1 then r1\<lparr>pools := rev (pools r1)\<rparr> else r1)"
    using b by (rule order_pools_decision)
  with assms(3,4) have r2: "r2 = r1\<lparr>pools := rev (pools r1)\<rparr>" by simp
  from r1 r2 show ?thesis by simp
qed

theorem order_pools_double_reversal_witness:
  "order_pools example_store example_contracts (swap_on ''juno1ja'' ''uatom'') ''ujuno''
      (new_route [0, 1, 2]) = Inr (new_route [2, 1, 0])
   \<and> reversal_triggered example_store example_contracts (swap_on ''juno1ja'' ''uatom'') ''ujuno''
      (new_route [0, 1, 2])
   \<and> order_pools example_store example_contracts (swap_on ''juno1ja'' ''ujuno'') ''ujuno''
      (new_route [2, 1, 0]) = Inr (new_route [0, 1, 2])
   \<and> reversal_triggered example_store example_contracts (swap_on ''juno1ja'' ''ujuno'') ''ujuno''
      (new_route [2, 1, 0])
   \<and> pools (new_route [2, 1, 0]) = rev (pools (new_route [0, 1, 2]))"
proof -
  have h1: "order_pools example_store example_contracts (swap_on ''juno1ja'' ''uatom'') ''ujuno''
      (new_route [0, 1, 2]) = Inr (new_route [2, 1, 0])"
    by (simp add: order_pools_def order_first_pool_def example_store_inj
        example_contracts_simps swap_on_def new_route_def)
  have h2: "reversal_triggered example_store example_contracts (swap_on ''juno1ja'' ''uatom'')
      ''ujuno'' (new_route [0, 1, 2])"
    by (simp add: reversal_triggered_def example_store_inj
        example_contracts_simps swap_on_def new_route_def)
  have h3: "order_pools example_store example_contracts (swap_on ''juno1ja'' ''ujuno'') ''ujuno''
      (new_route [2, 1, 0]) = Inr (new_route [0, 1, 2])"
    by (simp add: order_pools_def order_last_pool_def example_store_inj
        example_contracts_simps swap_on_def new_route_def)
  have h4: "reversal_triggered example_store example_contracts (swap_on ''juno1ja'' ''ujuno'')
      ''ujuno'' (new_route [2, 1, 0])"
    by (simp add: reversal_triggered_def example_store_inj
        example_contracts_simps swap_on_def new_route_def)
  from order_pools_double_reversal [OF h1 h2 h3 h4] h1 h2 h3 h4 show ?thesis
    by simp
qed

lemma swap_through_member:
  "swap_through p d = Some e \<Longrightarrow> q \<in> {token1_denom p, token2_denom p} \<Longrightarrow> q = d \<or> q = e"
  by (auto simp: swap_through_def split: if_splits)

lemma outward_denom:
  "swap_through p arb = Some x \<Longrightarrow>
   (if token1_denom p \<noteq> arb then token1_denom p else token2_denom p) = x"
  by (auto simp: swap_through_def split: if_splits)

text \<open>
  Claim C1. For a route of exactly three pools that form a denom cycle through
  \<open>arb_denom\<close>, and a swap on one of its pools, \<^verbatim>\<open>order_pools\<close> raises nothing and returns a
  route of the same three pools that is oriented: the input denom of pool 0 is
  \<open>arb_denom\<close>, the output denom of each pool is the input denom of the next, and the
  output denom of the last pool is \<open>arb_denom\<close> again. The orientation is the one that
  runs against the swap: where the output denom of the swap is one of the two denoms of
  the swapped pool, that pool, at its place in the resulting list, takes this denom as
  its input denom.
\<close>

theorem order_pools_orients_cycle:
  assumes "length (pools r) = 3"
    and "denom_cycle h arb (pools r)"
    and "contracts (contract_address swap) = Some target"
    and "h target \<in> set (map h (pools r))"
  shows "\<exists>r' x y i. order_pools h contracts swap arb r = Inr r'
     \<and> length (pools r') = 3
     \<and> orientation h arb (pools r') = Some [(arb, x), (x, y), (y, arb)]
     \<and> denom_cycle h arb (pools r')
     \<and> index_of (map h (pools r)) (h target) = Some i
     \<and> (output_denom swap \<in> {token1_denom (h target), token2_denom (h target)} \<longrightarrow>
          (\<exists>j<3. pools r' ! j = pools r ! i
             \<and> fst ([(arb, x), (x, y), (y, arb)] ! j) = output_denom swap))"
proof -
  let ?d = "output_denom swap"
  let ?T = "reversal_triggered h contracts swap arb r"
  from assms(1) obtain a b c where ps: "pools r = [a, b, c]"
    by (auto simp: length_Suc_conv numeral_3_eq_3)
  from assms(2) ps obtain x y where w:
    "swap_through (h a) arb = Some x" "swap_through (h b) x = Some y"
    "swap_through (h c) y = Some arb"
    by (auto simp: denom_cycle3)
  have fwd: "orientation h arb [a, b, c] = Some [(arb, x), (x, y), (y, arb)]"
    using w by (rule orientation3)
  have bwd: "orientation h arb [c, b, a] = Some [(arb, y), (y, x), (x, arb)]"
    using swap_through_back [OF w(3)] swap_through_back [OF w(2)] swap_through_back [OF w(1)]
    by (rule orientation3)
  from index_of_mem [OF assms(4)] obtain i
    where i: "index_of (map h (pools r)) (h target) = Some i" by blast
  have dec: "order_pools h contracts swap arb r =
     Inr (if ?T then r\<lparr>pools := rev (pools r)\<rparr> else r)"
    using assms(3) i by (rule order_pools_decision)
  from index_of_SomeD [OF i] ps have i3: "i < 3" and at: "[h a, h b, h c] ! i = h target"
    by simp_all
  from i3 have cases_i: "i = 0 \<or> i = 1 \<or> i = 2" by linarith
  have "(if token1_denom (h a) \<noteq> arb then token1_denom (h a) else token2_denom (h a)) = x"
    using w(1) by (rule outward_denom)
  then have tr: "?T \<longleftrightarrow> (if i = 0 then ?d \<noteq> arb else if i = 1 then ?d \<noteq> x else ?d = arb)"
    using assms(3) i ps cases_i by (auto simp: reversal_triggered_def)
  have tk: "(i = 0 \<longrightarrow> ?d = arb \<or> ?d = x) \<and> (i = 1 \<longrightarrow> ?d = x \<or> ?d = y)
      \<and> (i = 2 \<longrightarrow> ?d = y \<or> ?d = arb)"
    if m: "?d \<in> {token1_denom (h target), token2_denom (h target)}"
  proof (intro conjI impI)
    assume "i = 0"
    with at have "h a = h target" by simp
    with m w(1) show "?d = arb \<or> ?d = x" by (simp only: swap_through_member)
  next
    assume "i = 1"
    with at have "h b = h target" by simp
    with m w(2) show "?d = x \<or> ?d = y" by (simp only: swap_through_member)
  next
    assume "i = 2"
    with at have "h c = h target" by simp
    with m w(3) show "?d = y \<or> ?d = arb" by (simp only: swap_through_member)
  qed
  have in_fwd: "fst ([(arb, x), (x, y), (y, arb)] ! i) = ?d"
    if "\<not> ?T" "?d \<in> {token1_denom (h target), token2_denom (h target)}"
    using that(1) tk [OF that(2)] cases_i tr by auto
  have in_bwd: "fst ([(arb, y), (y, x), (x, arb)] ! (2 - i)) = ?d"
    if "?T" "?d \<in> {token1_denom (h target), token2_denom (h target)}"
    using that(1) tk [OF that(2)] cases_i tr by auto
  have pos: "[c, b, a] ! (2 - i) = [a, b, c] ! i"
    using cases_i by auto
  show ?thesis
  proof (cases ?T)
    case True
    have "?d \<in> {token1_denom (h target), token2_denom (h target)} \<longrightarrow>
        (\<exists>j<3. [c, b, a] ! j = [a, b, c] ! i
           \<and> fst ([(arb, y), (y, x), (x, arb)] ! j) = ?d)"
      using in_bwd [OF True] pos by (intro impI exI [of _ "2 - i"]) simp
    with True dec ps bwd i show ?thesis
      by (intro exI [of _ "r\<lparr>pools := rev (pools r)\<rparr>"] exI [of _ y] exI [of _ x]
          exI [of _ i]) (simp add: denom_cycle_def)
  next
    case False
    have "?d \<in> {token1_denom (h target), token2_denom (h target)} \<longrightarrow>
        (\<exists>j<3. [a, b, c] ! j = [a, b, c] ! i
           \<and> fst ([(arb, x), (x, y), (y, arb)] ! j) = ?d)"
      using in_fwd [OF False] i3 by (intro impI exI [of _ i]) simp
    with False dec ps fwd i show ?thesis
      by (intro exI [of _ r] exI [of _ x] exI [of _ y] exI [of _ i])
        (simp add: denom_cycle_def)
  qed
qed

theorem order_pools_orients_cycle_witness:
  "length (pools (new_route [0, 1, 2])) = 3
   \<and> denom_cycle example_store ''ujuno'' (pools (new_route [0, 1, 2]))
   \<and> example_contracts (contract_address (swap_on ''juno1ao'' ''uosmo'')) = Some 1
   \<and> example_store 1 \<in> set (map example_store (pools (new_route [0, 1, 2])))
   \<and> output_denom (swap_on ''juno1ao'' ''uosmo'')
        \<in> {token1_denom (example_store 1), token2_denom (example_store 1)}
   \<and> order_pools example_store example_contracts (swap_on ''juno1ao'' ''uosmo'') ''ujuno''
        (new_route [0, 1, 2]) = Inr (new_route [2, 1, 0])
   \<and> orientation example_store ''ujuno'' [2, 1, 0] =
        Some [(''ujuno'', ''uosmo''), (''uosmo'', ''uatom''), (''uatom'', ''ujuno'')]
   \<and> (\<exists>r' x y i. order_pools example_store example_contracts (swap_on ''juno1ao'' ''uosmo'')
          ''ujuno'' (new_route [0, 1, 2]) = Inr r'
        \<and> orientation example_store ''ujuno'' (pools r') =
             Some [(''ujuno'', x), (x, y), (y, ''ujuno'')]
        \<and> denom_cycle example_store ''ujuno'' (pools r')
        \<and> index_of (map example_store (pools (new_route [0, 1, 2]))) (example_store 1) = Some i
        \<and> (\<exists>j<3. pools r' ! j = pools (new_route [0, 1, 2]) ! i
              \<and> fst ([(''ujuno'', x), (x, y), (y, ''ujuno'')] ! j) = ''uosmo''))"
proof -
  have h1: "length (pools (new_route [0, 1, 2])) = 3"
    by (simp add: new_route_def)
  have h2: "denom_cycle example_store ''ujuno'' (pools (new_route [0, 1, 2]))"
    by (simp add: new_route_def denom_cycle_def swap_through_def example_store_simps
        example_pool_def)
  have h3: "example_contracts (contract_address (swap_on ''juno1ao'' ''uosmo'')) = Some 1"
    by (simp add: swap_on_def example_contracts_simps)
  have h4: "example_store 1 \<in> set (map example_store (pools (new_route [0, 1, 2])))"
    by (simp add: new_route_def)
  have h5: "output_denom (swap_on ''juno1ao'' ''uosmo'')
        \<in> {token1_denom (example_store 1), token2_denom (example_store 1)}"
    by (simp add: swap_on_def example_store_simps example_pool_def)
  have o: "output_denom (swap_on ''juno1ao'' ''uosmo'') = ''uosmo''"
    by (simp add: swap_on_def)
  have run: "order_pools example_store example_contracts (swap_on ''juno1ao'' ''uosmo'')
      ''ujuno'' (new_route [0, 1, 2]) = Inr (new_route [2, 1, 0])"
    by (simp add: order_pools_def order_second_pool_def example_store_inj
        example_contracts_simps swap_on_def new_route_def example_store_simps example_pool_def)
  have ori: "orientation example_store ''ujuno'' [2, 1, 0] =
        Some [(''ujuno'', ''uosmo''), (''uosmo'', ''uatom''), (''uatom'', ''ujuno'')]"
    by (simp add: swap_through_def example_store_simps example_pool_def)
  from order_pools_orients_cycle
         [where h = example_store and r = "new_route [0, 1, 2]" and arb = "''ujuno''"
            and contracts = example_contracts and swap = "swap_on ''juno1ao'' ''uosmo''"
            and target = 1, OF h1 h2 h3 h4]
  have "\<exists>r' x y i. order_pools example_store example_contracts (swap_on ''juno1ao'' ''uosmo'')
          ''ujuno'' (new_route [0, 1, 2]) = Inr r'
        \<and> orientation example_store ''ujuno'' (pools r') =
             Some [(''ujuno'', x), (x, y), (y, ''ujuno'')]
        \<and> denom_cycle example_store ''ujuno'' (pools r')
        \<and> index_of (map example_store (pools (new_route [0, 1, 2]))) (example_store 1) = Some i
        \<and> (\<exists>j<3. pools r' ! j = pools (new_route [0, 1, 2]) ! i
              \<and> fst ([(''ujuno'', x), (x, y), (y, ''ujuno'')] ! j) = ''uosmo'')"
    using h5 unfolding o by blast
  with h1 h2 h3 h4 h5 run ori show ?thesis by blast
qed

section \<open>Properties of the swap simulation\<close>

lemma profit_states_0: "profit_states cs r h 0 = h"
  by (simp add: profit_states_def)

lemma profit_states_Suc:
  "profit_states cs r h (Suc n) =
     profit_step cs (amount_in r) (pools r) (profit_states cs r h n) n"
  by (simp add: profit_states_def)

lemma profit_step_other: "q \<noteq> ps ! i \<Longrightarrow> profit_step cs a ps h i q = h q"
  by (simp add: profit_step_def Let_def)

lemma profit_step_amount_in:
  "pool_amount_in (profit_step cs a ps h i (ps ! i)) =
     (if i = 0 then a else pool_amount_out (h (ps ! (i - 1))))"
  by (simp add: profit_step_def Let_def)

lemma profit_step_amount_out:
  "pool_amount_out (profit_step cs a ps h i (ps ! i)) =
     pool_swap_out cs (h (ps ! i)) (pool_amount_in (profit_step cs a ps h i (ps ! i)))"
  by (simp add: profit_step_def pool_swap_out_def Let_def)

lemma profit_step_data: "same_pool_data (profit_step cs a ps h i q) (h q)"
  by (simp add: profit_step_def same_pool_data_def Let_def)

lemma same_pool_data_refl: "same_pool_data p p"
  by (simp add: same_pool_data_def)

lemma same_pool_data_trans: "same_pool_data p q \<Longrightarrow> same_pool_data q s \<Longrightarrow> same_pool_data p s"
  by (simp add: same_pool_data_def)

lemma profit_states_data: "same_pool_data (profit_states cs r h n q) (h q)"
proof (induction n)
  case 0
  show ?case by (simp add: profit_states_0 same_pool_data_refl)
next
  case (Suc n)
  from profit_step_data Suc show ?case
    unfolding profit_states_Suc by (rule same_pool_data_trans)
qed

lemma pool_swap_out_data:
  "same_pool_data p q \<Longrightarrow> pool_swap_out cs p a = pool_swap_out cs q a"
proof -
  assume "same_pool_data p q"
  then have e: "p\<lparr>pool_amount_in := 0, pool_amount_out := 0\<rparr> = q\<lparr>pool_amount_in := 0, pool_amount_out := 0\<rparr>"
    by (simp add: same_pool_data_def)
  have "input_reserves p = input_reserves (p\<lparr>pool_amount_in := 0, pool_amount_out := 0\<rparr>)"
    "output_reserves p = output_reserves (p\<lparr>pool_amount_in := 0, pool_amount_out := 0\<rparr>)"
    "lp_fee p = lp_fee (p\<lparr>pool_amount_in := 0, pool_amount_out := 0\<rparr>)"
    "protocol_fee p = protocol_fee (p\<lparr>pool_amount_in := 0, pool_amount_out := 0\<rparr>)"
    "fee_from_input p = fee_from_input (p\<lparr>pool_amount_in := 0, pool_amount_out := 0\<rparr>)"
    by simp_all
  then show ?thesis
    unfolding pool_swap_out_def e by simp
qed

lemma profit_states_chain:
  assumes "distinct (pools r)" and "n \<le> length (pools r)"
  shows "(\<forall>i<n. pool_amount_in (profit_states cs r h n (pools r ! i)) =
              (if i = 0 then amount_in r
               else pool_amount_out (profit_states cs r h n (pools r ! (i - 1))))
            \<and> pool_amount_out (profit_states cs r h n (pools r ! i)) =
              pool_swap_out cs (h (pools r ! i))
                (pool_amount_in (profit_states cs r h n (pools r ! i))))"
  using assms(2)
proof (induction n)
  case 0
  show ?case by simp
next
  case (Suc n)
  let ?ps = "pools r"
  let ?H = "profit_states cs r h n"
  let ?H' = "profit_states cs r h (Suc n)"
  from Suc.prems have n: "n < length ?ps" by simp
  have IH: "\<forall>i<n. pool_amount_in (?H (?ps ! i)) =
              (if i = 0 then amount_in r else pool_amount_out (?H (?ps ! (i - 1))))
            \<and> pool_amount_out (?H (?ps ! i)) =
              pool_swap_out cs (h (?ps ! i)) (pool_amount_in (?H (?ps ! i)))"
    using Suc.IH n by simp
  have other: "?H' (?ps ! j) = ?H (?ps ! j)" if "j < n" for j
  proof -
    from that n assms(1) have "?ps ! j \<noteq> ?ps ! n"
      by (simp add: nth_eq_iff_index_eq)
    then show ?thesis
      unfolding profit_states_Suc by (rule profit_step_other)
  qed
  show ?case
  proof (intro allI impI)
    fix i assume "i < Suc n"
    then consider "i < n" | "i = n" by linarith
    then show "pool_amount_in (?H' (?ps ! i)) =
              (if i = 0 then amount_in r else pool_amount_out (?H' (?ps ! (i - 1))))
            \<and> pool_amount_out (?H' (?ps ! i)) =
              pool_swap_out cs (h (?ps ! i)) (pool_amount_in (?H' (?ps ! i)))"
    proof cases
      case 1
      then have "i - 1 < n" by simp
      with 1 IH other [of i] other [of "i - 1"] show ?thesis by simp
    next
      case 2
      have a: "pool_amount_in (?H' (?ps ! n)) =
          (if n = 0 then amount_in r else pool_amount_out (?H (?ps ! (n - 1))))"
        unfolding profit_states_Suc by (rule profit_step_amount_in)
      have b: "pool_amount_out (?H' (?ps ! n)) =
          pool_swap_out cs (?H (?ps ! n)) (pool_amount_in (?H' (?ps ! n)))"
        unfolding profit_states_Suc by (rule profit_step_amount_out)
      have c: "pool_swap_out cs (?H (?ps ! n)) x = pool_swap_out cs (h (?ps ! n)) x" for x
        by (rule pool_swap_out_data) (rule profit_states_data)
      have d: "n \<noteq> 0 \<Longrightarrow> ?H' (?ps ! (n - 1)) = ?H (?ps ! (n - 1))"
        by (rule other) simp
      from a b c d 2 show ?thesis by simp
    qed
  qed
qed

lemma example_swaps:
  "constant_product_swap 1000 1000 100 (3 / 1000) 0 True = (90, (), ())"
  "constant_product_swap 1000 1000 90 (3 / 1000) 0 True = (82, (), ())"
  "constant_product_swap 1000 1000 82 (3 / 1000) 0 True = (75, (), ())"
  by (simp_all add: constant_product_swap_def Let_def floor_unique)

lemma example_profit_states:
  "profit_states constant_product_swap ((new_route [0, 1, 2])\<lparr>amount_in := 100\<rparr>)
      example_store 3 =
   example_store
     (0 := (example_store 0)\<lparr>pool_amount_in := 100, pool_amount_out := 90\<rparr>,
      1 := (example_store 1)\<lparr>pool_amount_in := 90, pool_amount_out := 82\<rparr>,
      2 := (example_store 2)\<lparr>pool_amount_in := 82, pool_amount_out := 75\<rparr>)"
proof -
  let ?r = "(new_route [0, 1, 2])\<lparr>amount_in := 100\<rparr>"
  let ?h1 = "example_store
     (0 := (example_store 0)\<lparr>pool_amount_in := 100, pool_amount_out := 90\<rparr>)"
  let ?h2 = "?h1(1 := (example_store 1)\<lparr>pool_amount_in := 90, pool_amount_out := 82\<rparr>)"
  have s1: "profit_states constant_product_swap ?r example_store (Suc 0) = ?h1"
    by (simp add: profit_states_Suc profit_states_0 profit_step_def new_route_def Let_def
        example_store_simps example_pool_def example_swaps)
  have s2: "profit_states constant_product_swap ?r example_store (Suc (Suc 0)) = ?h2"
    unfolding profit_states_Suc [of _ _ _ "Suc 0"] s1
    by (simp add: profit_step_def new_route_def Let_def
        example_store_simps example_pool_def example_swaps)
  have s3: "profit_states constant_product_swap ?r example_store (Suc (Suc (Suc 0))) =
      ?h2(2 := (example_store 2)\<lparr>pool_amount_in := 82, pool_amount_out := 75\<rparr>)"
    unfolding profit_states_Suc [of _ _ _ "Suc (Suc 0)"] s2
    by (simp add: profit_step_def new_route_def Let_def
        example_store_simps example_pool_def example_swaps)
  then show ?thesis by (simp add: numeral_3_eq_3)
qed

text \<open>
  Claim C3. On a route with at least one pool, \<^verbatim>\<open>calculate_and_set_profit\<close> raises nothing.
  Iteration \<open>i\<close> of its loop writes to pool \<open>i\<close> the amount in, which is \<^verbatim>\<open>route.amount_in\<close>
  for pool 0 and the amount out of pool \<open>i - 1\<close> otherwise, and the amount out that
  \<^verbatim>\<open>calculate_swap\<close> returns for the reserves and fees of pool \<open>i\<close> and that amount in. The
  call sets \<^verbatim>\<open>route.profit\<close> to the amount out of the last pool minus the amount in of the
  first pool and returns it. Where no pool object occurs twice in the list, the amounts
  of every pool are still in place when the loop ends, and the profit is the amount out
  of the last pool minus \<^verbatim>\<open>route.amount_in\<close>.
\<close>

theorem calculate_and_set_profit_chain:
  assumes "pools r \<noteq> []"
  shows "\<exists>p h' r'. calculate_and_set_profit cs h r = Inr (p, h', r')
     \<and> r' = r\<lparr>profit := p\<rparr>
     \<and> p = pool_amount_out (h' (last (pools r))) - pool_amount_in (h' (hd (pools r)))
     \<and> h' = profit_states cs r h (length (pools r))
     \<and> (\<forall>i<length (pools r).
          pool_amount_in (profit_states cs r h (Suc i) (pools r ! i)) =
            (if i = 0 then amount_in r
             else pool_amount_out (profit_states cs r h i (pools r ! (i - 1))))
          \<and> pool_amount_out (profit_states cs r h (Suc i) (pools r ! i)) =
            pool_swap_out cs (h (pools r ! i))
              (pool_amount_in (profit_states cs r h (Suc i) (pools r ! i))))
     \<and> (distinct (pools r) \<longrightarrow>
          (\<forall>i<length (pools r).
             pool_amount_in (h' (pools r ! i)) =
               (if i = 0 then amount_in r else pool_amount_out (h' (pools r ! (i - 1))))
             \<and> pool_amount_out (h' (pools r ! i)) =
               pool_swap_out cs (h (pools r ! i)) (pool_amount_in (h' (pools r ! i))))
          \<and> p = pool_amount_out (h' (last (pools r))) - amount_in r)"
proof -
  let ?ps = "pools r"
  let ?h' = "profit_states cs r h (length ?ps)"
  let ?p = "pool_amount_out (?h' (last ?ps)) - pool_amount_in (?h' (hd ?ps))"
  have run: "calculate_and_set_profit cs h r = Inr (?p, ?h', r\<lparr>profit := ?p\<rparr>)"
    using assms by (simp add: calculate_and_set_profit_def Let_def)
  have steps: "pool_amount_in (profit_states cs r h (Suc i) (?ps ! i)) =
            (if i = 0 then amount_in r
             else pool_amount_out (profit_states cs r h i (?ps ! (i - 1))))
          \<and> pool_amount_out (profit_states cs r h (Suc i) (?ps ! i)) =
            pool_swap_out cs (h (?ps ! i))
              (pool_amount_in (profit_states cs r h (Suc i) (?ps ! i)))" for i
  proof -
    have "pool_swap_out cs (profit_states cs r h i (?ps ! i)) x =
        pool_swap_out cs (h (?ps ! i)) x" for x
      by (rule pool_swap_out_data) (rule profit_states_data)
    then show ?thesis
      unfolding profit_states_Suc
      by (simp add: profit_step_amount_in profit_step_amount_out)
  qed
  have final: "(\<forall>i<length ?ps.
             pool_amount_in (?h' (?ps ! i)) =
               (if i = 0 then amount_in r else pool_amount_out (?h' (?ps ! (i - 1))))
             \<and> pool_amount_out (?h' (?ps ! i)) =
               pool_swap_out cs (h (?ps ! i)) (pool_amount_in (?h' (?ps ! i))))
          \<and> ?p = pool_amount_out (?h' (last ?ps)) - amount_in r" if d: "distinct ?ps"
  proof -
    have ch: "\<forall>i<length ?ps.
             pool_amount_in (?h' (?ps ! i)) =
               (if i = 0 then amount_in r else pool_amount_out (?h' (?ps ! (i - 1))))
             \<and> pool_amount_out (?h' (?ps ! i)) =
               pool_swap_out cs (h (?ps ! i)) (pool_amount_in (?h' (?ps ! i)))"
      using d by (rule profit_states_chain) simp
    from assms have "0 < length ?ps" "hd ?ps = ?ps ! 0"
      by (simp_all add: hd_conv_nth)
    with ch have "pool_amount_in (?h' (hd ?ps)) = amount_in r" by auto
    with ch show ?thesis by simp
  qed
  from run steps final show ?thesis by blast
qed

theorem calculate_and_set_profit_chain_witness:
  "pools ((new_route [0, 1, 2])\<lparr>amount_in := 100\<rparr>) \<noteq> []
   \<and> distinct (pools ((new_route [0, 1, 2])\<lparr>amount_in := 100\<rparr>))
   \<and> calculate_and_set_profit constant_product_swap example_store
         ((new_route [0, 1, 2])\<lparr>amount_in := 100\<rparr>) =
       Inr (- 25,
            example_store
              (0 := (example_store 0)\<lparr>pool_amount_in := 100, pool_amount_out := 90\<rparr>,
               1 := (example_store 1)\<lparr>pool_amount_in := 90, pool_amount_out := 82\<rparr>,
               2 := (example_store 2)\<lparr>pool_amount_in := 82, pool_amount_out := 75\<rparr>),
            (new_route [0, 1, 2])\<lparr>amount_in := 100, profit := - 25\<rparr>)"
proof -
  let ?r = "(new_route [0, 1, 2])\<lparr>amount_in := 100\<rparr>"
  have h1: "pools ?r \<noteq> []" by (simp add: new_route_def)
  have h2: "distinct (pools ?r)" by (simp add: new_route_def)
  have len: "length (pools ?r) = 3" by (simp add: new_route_def)
  from calculate_and_set_profit_chain [OF h1, of constant_product_swap example_store]
  obtain p h' r' where res:
    "calculate_and_set_profit constant_product_swap example_store ?r = Inr (p, h', r')"
    "r' = ?r\<lparr>profit := p\<rparr>"
    "p = pool_amount_out (h' (last (pools ?r))) - pool_amount_in (h' (hd (pools ?r)))"
    "h' = profit_states constant_product_swap ?r example_store (length (pools ?r))"
    by blast
  from res(4) have h': "h' = example_store
              (0 := (example_store 0)\<lparr>pool_amount_in := 100, pool_amount_out := 90\<rparr>,
               1 := (example_store 1)\<lparr>pool_amount_in := 90, pool_amount_out := 82\<rparr>,
               2 := (example_store 2)\<lparr>pool_amount_in := 82, pool_amount_out := 75\<rparr>)"
    unfolding len example_profit_states .
  from res(3) have p: "p = - 25"
    unfolding h' by (simp add: new_route_def)
  from res(1,2) h' p h1 h2 show ?thesis by simp
qed

section \<open>Properties of the balance-constrained sizing\<close>

text \<open>
  Claim C5. \<^verbatim>\<open>calculate_and_set_amount_in\<close> leaves the route as it is (so \<^verbatim>\<open>amount_in\<close> stays
  at its default 0) when \<^verbatim>\<open>optimal_amount_in\<close> is at most 0; it sets \<^verbatim>\<open>amount_in\<close> to
  \<^verbatim>\<open>account_balance - gas_fee\<close> when \<^verbatim>\<open>optimal_amount_in\<close> exceeds that difference, also
  when the difference is negative; otherwise it sets \<^verbatim>\<open>amount_in\<close> to \<^verbatim>\<open>optimal_amount_in\<close>.
  On a fresh route: optimal 1000, balance 500, gas 100 give 400; optimal -5 gives 0;
  optimal 50, balance 1000, gas 10 give 50.
\<close>

theorem calculate_and_set_amount_in_policy:
  "(optimal_amount_in r \<le> 0 \<longrightarrow>
      calculate_and_set_amount_in account_balance gas_fee r = r)
   \<and> (0 < optimal_amount_in r \<and> optimal_amount_in r > account_balance - gas_fee \<longrightarrow>
      calculate_and_set_amount_in account_balance gas_fee r =
        r\<lparr>amount_in := account_balance - gas_fee\<rparr>)
   \<and> (0 < optimal_amount_in r \<and> optimal_amount_in r \<le> account_balance - gas_fee \<longrightarrow>
      calculate_and_set_amount_in account_balance gas_fee r =
        r\<lparr>amount_in := optimal_amount_in r\<rparr>)
   \<and> amount_in (calculate_and_set_amount_in 500 100
        ((new_route ps)\<lparr>optimal_amount_in := 1000\<rparr>)) = 400
   \<and> amount_in (calculate_and_set_amount_in account_balance gas_fee
        ((new_route ps)\<lparr>optimal_amount_in := - 5\<rparr>)) = 0
   \<and> amount_in (calculate_and_set_amount_in 1000 10
        ((new_route ps)\<lparr>optimal_amount_in := 50\<rparr>)) = 50"
  by (simp add: calculate_and_set_amount_in_def new_route_def)

theorem calculate_and_set_amount_in_policy_witness:
  "optimal_amount_in ((new_route [0, 1, 2])\<lparr>optimal_amount_in := - 5\<rparr>) \<le> 0
   \<and> calculate_and_set_amount_in 500 100 ((new_route [0, 1, 2])\<lparr>optimal_amount_in := - 5\<rparr>)
       = (new_route [0, 1, 2])\<lparr>optimal_amount_in := - 5\<rparr>
   \<and> 0 < optimal_amount_in ((new_route [0, 1, 2])\<lparr>optimal_amount_in := 10\<rparr>)
   \<and> optimal_amount_in ((new_route [0, 1, 2])\<lparr>optimal_amount_in := 10\<rparr>) > 50 - 100
   \<and> amount_in (calculate_and_set_amount_in 50 100
        ((new_route [0, 1, 2])\<lparr>optimal_amount_in := 10\<rparr>)) = - 50
   \<and> 0 < optimal_amount_in ((new_route [0, 1, 2])\<lparr>optimal_amount_in := 50\<rparr>)
   \<and> optimal_amount_in ((new_route [0, 1, 2])\<lparr>optimal_amount_in := 50\<rparr>) \<le> 1000 - 10
   \<and> amount_in (calculate_and_set_amount_in 1000 10
        ((new_route [0, 1, 2])\<lparr>optimal_amount_in := 50\<rparr>)) = 50"
  using calculate_and_set_amount_in_policy
          [of "(new_route [0, 1, 2])\<lparr>optimal_amount_in := - 5\<rparr>" 500 100 "[]"]
        calculate_and_set_amount_in_policy
          [of "(new_route [0, 1, 2])\<lparr>optimal_amount_in := 10\<rparr>" 50 100 "[]"]
        calculate_and_set_amount_in_policy
          [of "(new_route [0, 1, 2])\<lparr>optimal_amount_in := 50\<rparr>" 1000 10 "[]"]
  by (simp add: new_route_def)

text \<open>
  Claim C8. With a gas fee of at least 0, a positive \<^verbatim>\<open>optimal_amount_in\<close> and \<^verbatim>\<open>amount_in\<close>
  at its default 0, the \<^verbatim>\<open>amount_in\<close> that \<^verbatim>\<open>calculate_and_set_amount_in\<close> leaves is at most
  \<^verbatim>\<open>optimal_amount_in\<close> and at most the account balance (indeed at most the balance net
  of the gas fee).
\<close>

theorem calculate_and_set_amount_in_bounded:
  assumes "0 \<le> gas_fee" and "0 < optimal_amount_in r" and "amount_in r = 0"
  shows "amount_in (calculate_and_set_amount_in account_balance gas_fee r)
           \<le> optimal_amount_in (calculate_and_set_amount_in account_balance gas_fee r)
     \<and> optimal_amount_in (calculate_and_set_amount_in account_balance gas_fee r)
           = optimal_amount_in r
     \<and> amount_in (calculate_and_set_amount_in account_balance gas_fee r)
           \<le> account_balance - gas_fee
     \<and> amount_in (calculate_and_set_amount_in account_balance gas_fee r) \<le> account_balance"
  using assms by (simp add: calculate_and_set_amount_in_def)

theorem calculate_and_set_amount_in_bounded_witness:
  "(0::int) \<le> 100 \<and> 0 < optimal_amount_in ((new_route [0, 1, 2])\<lparr>optimal_amount_in := 1000\<rparr>)
   \<and> amount_in ((new_route [0, 1, 2])\<lparr>optimal_amount_in := 1000\<rparr>) = 0
   \<and> amount_in (calculate_and_set_amount_in 500 100
        ((new_route [0, 1, 2])\<lparr>optimal_amount_in := 1000\<rparr>)) \<le> 1000
   \<and> amount_in (calculate_and_set_amount_in 500 100
        ((new_route [0, 1, 2])\<lparr>optimal_amount_in := 1000\<rparr>)) \<le> 500"
proof -
  let ?r = "(new_route [0, 1, 2])\<lparr>optimal_amount_in := 1000\<rparr>"
  have h1: "(0::int) \<le> 100" by simp
  have h2: "0 < optimal_amount_in ?r" by (simp add: new_route_def)
  have h3: "amount_in ?r = 0" by (simp add: new_route_def)
  from calculate_and_set_amount_in_bounded [OF h1 h2 h3, of 500] h1 h2 h3
  show ?thesis by simp
qed

section \<open>Properties of the mempool watcher\<close>

lemma collect_step_pair:
  "collect_step (new, seen) tx =
     (if tx |\<in>| seen then (new, seen) else (new @ [tx], finsert tx seen))"
  by (simp add: collect_step_def)

lemma foldl_collect_step:
  "foldl collect_step (new, seen) txs = (new', seen') \<Longrightarrow>
   \<exists>added. new' = new @ added \<and> distinct added \<and> set added = set txs - fset seen
     \<and> seen' = seen |\<union>| fset_of_list txs"
proof (induction txs arbitrary: new seen)
  case Nil
  then show ?case by simp
next
  case (Cons tx txs)
  show ?case
  proof (cases "tx |\<in>| seen")
    case True
    with Cons.prems have "foldl collect_step (new, seen) txs = (new', seen')"
      by (simp add: collect_step_pair)
    from Cons.IH [OF this] True show ?thesis
      by auto
  next
    case False
    with Cons.prems
    have "foldl collect_step (new @ [tx], finsert tx seen) txs = (new', seen')"
      by (simp add: collect_step_pair)
    from Cons.IH [OF this] obtain added where a:
      "new' = (new @ [tx]) @ added" "distinct added"
      "set added = set txs - fset (finsert tx seen)"
      "seen' = finsert tx seen |\<union>| fset_of_list txs" by blast
    from a False have "new' = new @ (tx # added)" "distinct (tx # added)"
      "set (tx # added) = set (tx # txs) - fset seen"
      "seen' = seen |\<union>| fset_of_list (tx # txs)"
      by auto
    then show ?thesis by blast
  qed
qed

lemma collect_new_props:
  assumes "collect_new seen txs = (new_txs, seen')"
  shows "distinct new_txs" and "set new_txs = set txs - fset seen"
    and "seen' = seen |\<union>| fset_of_list txs"
    and "seen' = seen |\<union>| fset_of_list new_txs"
    and "fcard seen' = fcard seen + length new_txs"
proof -
  from assms have f: "foldl collect_step ([], seen) txs = (new_txs, seen')"
    by (simp add: collect_new_def)
  from foldl_collect_step [OF f] obtain added where
    "new_txs = [] @ added" "distinct added" "set added = set txs - fset seen"
    "seen' = seen |\<union>| fset_of_list txs" by blast
  then show a: "distinct new_txs" "set new_txs = set txs - fset seen"
    "seen' = seen |\<union>| fset_of_list txs" by simp_all
  have "fset (seen |\<union>| fset_of_list new_txs) = fset (seen |\<union>| fset_of_list txs)"
    by (simp add: fset_of_list.rep_eq a(2))
  then have "seen |\<union>| fset_of_list new_txs = seen |\<union>| fset_of_list txs"
    by (simp only: fset_inject)
  with a(3) show b: "seen' = seen |\<union>| fset_of_list new_txs" by simp
  have "fset (seen |\<inter>| fset_of_list new_txs) = fset {||}"
    by (simp add: fset_of_list.rep_eq a(2) Diff_disjoint)
  then have "seen |\<inter>| fset_of_list new_txs = {||}"
    by (simp only: fset_inject)
  then have "fcard seen' = fcard seen + fcard (fset_of_list new_txs)"
    unfolding b by (rule fcard_funion_disjoint)
  also have "fcard (fset_of_list new_txs) = length new_txs"
    using a(1) by (simp add: fcard.rep_eq fset_of_list.rep_eq distinct_card)
  finally show "fcard seen' = fcard seen + length new_txs" .
qed

lemma poll_once_simps:
  "poll_once s ConnectTimeout = Continue (clear_if_full s)"
  "poll_once s ReadTimeout = Continue (clear_if_full s)"
  "poll_once s ConnectError = Continue (clear_if_full s)"
  "poll_once s RemoteProtocolError = Continue (clear_if_full s)"
  "poll_once s OtherException = Raise OtherHTTPError (clear_if_full s)"
  "poll_once s (Response NotJson) = Continue (clear_if_full s)"
  "poll_once s (Response NoResult) = Raise KeyError (clear_if_full s)"
  "poll_once s (Response (Result MempoolNull)) = Continue (clear_if_full s)"
  "poll_once s (Response (Result (Mempool None))) = Continue (clear_if_full s)"
  "poll_once s (Response (Result (Mempool (Some txs)))) =
     (if txs = [] then Continue (clear_if_full s)
      else if fst (collect_new (clear_if_full s) txs) \<noteq> []
      then Return (fst (collect_new (clear_if_full s) txs))
             (snd (collect_new (clear_if_full s) txs))
      else Continue (snd (collect_new (clear_if_full s) txs)))"
  by (simp_all add: poll_once_def query_unconfirmed_txs_def get_mempool_from_response_def
      Let_def split: prod.splits)

lemma poll_once_ReturnD:
  assumes "poll_once already_seen ev = Return new_txs seen'"
  shows "\<exists>txs. ev = Response (Result (Mempool (Some txs))) \<and> txs \<noteq> []
     \<and> collect_new (clear_if_full already_seen) txs = (new_txs, seen') \<and> new_txs \<noteq> []"
proof (cases ev)
  case (Response b)
  show ?thesis
  proof (cases b)
    case (Result m)
    show ?thesis
    proof (cases m)
      case (Mempool t)
      show ?thesis
      proof (cases t)
        case (Some txs)
        with assms Response Result Mempool show ?thesis
          by (cases "collect_new (clear_if_full already_seen) txs")
            (simp add: poll_once_simps split: if_splits)
      qed (use assms Response Result Mempool in \<open>simp add: poll_once_simps\<close>)
    qed (use assms Response Result in \<open>simp add: poll_once_simps\<close>)
  qed (use assms Response in \<open>simp_all add: poll_once_simps\<close>)
qed (use assms in \<open>simp_all add: poll_once_simps\<close>)

lemma collect_new_single:
  "collect_new c [tx] = (if tx |\<in>| c then ([], c) else ([tx], finsert tx c))"
  by (simp add: collect_new_def collect_step_pair)

lemma collect_new_twice:
  "collect_new c [tx, tx] = collect_new c [tx]"
  by (simp add: collect_new_def collect_step_pair)

lemma example_tx_eq: "example_tx m = example_tx n \<longleftrightarrow> m = n"
  by (simp add: example_tx_def replicate_eq_replicate)

lemma fset_example_cache: "fset (example_cache n) = example_tx ` {0..<n}"
  by (simp add: example_cache_def fset_of_list.rep_eq)

lemma example_tx_in_cache: "example_tx m |\<in>| example_cache n \<longleftrightarrow> m < n"
  by (auto simp: fset_example_cache example_tx_eq)

lemma fcard_example_cache: "fcard (example_cache n) = n"
proof -
  have "inj_on example_tx {0..<n}"
    by (rule inj_onI) (simp add: example_tx_eq)
  then have "card (example_tx ` {0..<n}) = card {0..<n}"
    by (rule card_image)
  then show ?thesis
    by (simp add: fcard.rep_eq fset_example_cache)
qed

lemma example_cache_Suc: "finsert (example_tx n) (example_cache n) = example_cache (Suc n)"
proof -
  have "fset (finsert (example_tx n) (example_cache n)) = fset (example_cache (Suc n))"
    by (simp add: fset_example_cache atLeast0_lessThan_Suc)
  then show ?thesis by (simp only: fset_inject)
qed

text \<open>
  Claim C7. Whenever \<^verbatim>\<open>query_node_for_new_mempool_txs\<close> returns, the list it returns is not
  empty and has no identifier twice; every identifier in it was absent from the cache
  when the returning batch was processed and is in the cache afterwards; no identifier
  that was in the cache then is in the list. An identifier that is in the cache is not
  emitted again, and inserting an identifier a second time leaves the cache, and so its
  size, unchanged.
\<close>

theorem query_node_returns_only_new:
  assumes "query_node_for_new_mempool_txs already_seen evs = Some (Return new_txs seen')"
  shows "new_txs \<noteq> [] \<and> distinct new_txs
     \<and> (\<exists>cache. cache_at_return already_seen evs = Some cache
           \<and> (\<forall>tx\<in>set new_txs. tx |\<notin>| cache \<and> tx |\<in>| seen')
           \<and> (\<forall>tx. tx |\<in>| cache \<longrightarrow> tx \<notin> set new_txs)
           \<and> seen' = cache |\<union>| fset_of_list new_txs
           \<and> fcard seen' = fcard cache + length new_txs)
     \<and> (\<forall>c tx. tx |\<in>| c \<longrightarrow> collect_new c [tx] = ([], c))
     \<and> (\<forall>c tx. collect_new (snd (collect_new c [tx])) [tx] = ([], snd (collect_new c [tx]))
           \<and> collect_new c [tx, tx] = collect_new c [tx])"
proof -
  have ret: "new_txs \<noteq> [] \<and> distinct new_txs
     \<and> (\<exists>cache. cache_at_return already_seen evs = Some cache
           \<and> (\<forall>tx\<in>set new_txs. tx |\<notin>| cache \<and> tx |\<in>| seen')
           \<and> (\<forall>tx. tx |\<in>| cache \<longrightarrow> tx \<notin> set new_txs)
           \<and> seen' = cache |\<union>| fset_of_list new_txs
           \<and> fcard seen' = fcard cache + length new_txs)"
    using assms
  proof (induction evs arbitrary: already_seen)
    case Nil
    then show ?case by simp
  next
    case (Cons ev evs)
    show ?case
    proof (cases "poll_once already_seen ev")
      case (Continue s)
      with Cons.prems have "query_node_for_new_mempool_txs s evs = Some (Return new_txs seen')"
        by simp
      from Cons.IH [OF this] Continue show ?thesis by simp
    next
      case (Return n s)
      with Cons.prems have eq: "n = new_txs" "s = seen'" by simp_all
      from poll_once_ReturnD [OF Return [unfolded eq]] obtain txs where
        c: "collect_new (clear_if_full already_seen) txs = (new_txs, seen')"
        and ne: "new_txs \<noteq> []" by blast
      note p = collect_new_props [OF c]
      have "\<forall>tx\<in>set new_txs. tx |\<notin>| clear_if_full already_seen \<and> tx |\<in>| seen'"
        using p(2) p(4) by (simp add: fset_of_list_elem)
      moreover have "\<forall>tx. tx |\<in>| clear_if_full already_seen \<longrightarrow> tx \<notin> set new_txs"
        using p(2) by simp
      moreover have "cache_at_return already_seen (ev # evs) = Some (clear_if_full already_seen)"
        using Return by simp
      ultimately show ?thesis using ne p(1) p(4) p(5) by (simp add: fset_of_list_elem)
    next
      case (Raise e s)
      with Cons.prems show ?thesis by simp
    qed
  qed
  have "collect_new (snd (collect_new c [tx])) [tx] = ([], snd (collect_new c [tx]))" for c tx
    by (simp add: collect_new_single)
  with ret show ?thesis
    by (simp add: collect_new_single collect_new_twice)
qed

theorem query_node_returns_only_new_witness:
  "query_node_for_new_mempool_txs {|''tx1''|}
      [ConnectTimeout, txs_response [''tx1''], txs_response [''tx1'', ''tx2'', ''tx2'']] =
     Some (Return [''tx2''] {|''tx2'', ''tx1''|})
   \<and> cache_at_return {|''tx1''|}
      [ConnectTimeout, txs_response [''tx1''], txs_response [''tx1'', ''tx2'', ''tx2'']] =
     Some {|''tx1''|}
   \<and> ''tx2'' |\<notin>| {|''tx1''|} \<and> ''tx2'' |\<in>| {|''tx2'', ''tx1''|}
   \<and> fcard {|''tx2'', ''tx1''|} = fcard {|''tx1''|} + length [''tx2'']"
proof -
  have c: "clear_if_full {|''tx1''|} = {|''tx1''|}"
    by (simp add: clear_if_full_def fcard_finsert_if fcard_fempty)
  have h: "query_node_for_new_mempool_txs {|''tx1''|}
      [ConnectTimeout, txs_response [''tx1''], txs_response [''tx1'', ''tx2'', ''tx2'']] =
     Some (Return [''tx2''] {|''tx2'', ''tx1''|})"
    by (simp add: txs_response_def poll_once_simps c collect_new_def collect_step_pair)
  from query_node_returns_only_new [OF h] h show ?thesis
    by (simp add: txs_response_def poll_once_simps c collect_new_def collect_step_pair)
qed

text \<open>
  Claim C6, as amended. Each pass of the polling loop clears the cache entirely when it
  holds more than 200 identifiers, that is 201 or more, before the node is queried and
  before new identifiers are inserted: a new identifier that arrives then leaves a cache
  of size 1 that holds only this identifier. A cache of 200 identifiers or fewer is
  kept: a new identifier is added to it, and inserting the 201st identifier leaves 201.
\<close>

theorem cache_cleared_above_threshold:
  "(200 < fcard already_seen \<longrightarrow>
      clear_if_full already_seen = {||}
      \<and> poll_once already_seen ConnectTimeout = Continue {||}
      \<and> poll_once already_seen (txs_response [tx]) = Return [tx] {|tx|}
      \<and> fcard {|tx|} = 1
      \<and> (txs \<noteq> [] \<longrightarrow>
           (\<exists>new_txs. poll_once already_seen (txs_response txs) =
                         Return new_txs (fset_of_list txs)
              \<and> set new_txs = set txs \<and> distinct new_txs)))
   \<and> (fcard already_seen \<le> 200 \<longrightarrow>
      clear_if_full already_seen = already_seen
      \<and> (tx |\<notin>| already_seen \<longrightarrow>
           poll_once already_seen (txs_response [tx]) = Return [tx] (finsert tx already_seen)
           \<and> fcard (finsert tx already_seen) = Suc (fcard already_seen)))"
proof (intro conjI impI)
  assume full: "200 < fcard already_seen"
  then show c: "clear_if_full already_seen = {||}"
    by (simp add: clear_if_full_def)
  show "poll_once already_seen ConnectTimeout = Continue {||}"
    by (simp add: poll_once_simps c)
  show "poll_once already_seen (txs_response [tx]) = Return [tx] {|tx|}"
    by (simp add: txs_response_def poll_once_simps c collect_new_single)
  show "fcard {|tx|} = 1"
    by (simp add: fcard_finsert_if fcard_fempty)
  assume ne: "txs \<noteq> []"
  obtain new_txs seen' where cn: "collect_new {||} txs = (new_txs, seen')"
    by (cases "collect_new {||} txs")
  note p = collect_new_props [OF cn]
  from p(2) ne have "new_txs \<noteq> []" by auto
  with cn ne p show "\<exists>new_txs. poll_once already_seen (txs_response txs) =
                         Return new_txs (fset_of_list txs)
              \<and> set new_txs = set txs \<and> distinct new_txs"
    by (simp add: txs_response_def poll_once_simps c)
next
  assume "fcard already_seen \<le> 200"
  then show c: "clear_if_full already_seen = already_seen"
    by (simp add: clear_if_full_def)
  assume "tx |\<notin>| already_seen"
  then show "poll_once already_seen (txs_response [tx]) = Return [tx] (finsert tx already_seen)"
    "fcard (finsert tx already_seen) = Suc (fcard already_seen)"
    by (simp_all add: txs_response_def poll_once_simps c collect_new_single fcard_finsert_if)
qed

theorem cache_cleared_above_threshold_witness:
  "200 < fcard (example_cache 201)
   \<and> poll_once (example_cache 201) (txs_response [example_tx 201]) =
       Return [example_tx 201] {|example_tx 201|}
   \<and> fcard {|example_tx 201|} = 1
   \<and> fcard (example_cache 200) \<le> 200
   \<and> example_tx 200 |\<notin>| example_cache 200
   \<and> poll_once (example_cache 200) (txs_response [example_tx 200]) =
       Return [example_tx 200] (example_cache 201)
   \<and> fcard (example_cache 201) = 201"
proof -
  have h1: "200 < fcard (example_cache 201)" by (simp add: fcard_example_cache)
  have h2: "fcard (example_cache 200) \<le> 200" by (simp add: fcard_example_cache)
  have h3: "example_tx 200 |\<notin>| example_cache 200" by (simp add: example_tx_in_cache)
  have e: "finsert (example_tx 200) (example_cache 200) = example_cache 201"
    using example_cache_Suc [of 200] by simp
  from cache_cleared_above_threshold [of "example_cache 201" "example_tx 201" "[]"]
       cache_cleared_above_threshold [of "example_cache 200" "example_tx 200" "[]"]
       h1 h2 h3
  show ?thesis by (simp add: e fcard_example_cache)
qed

text \<open>
  Claim C6 as stated fails: the test is \<^verbatim>\<open>len(self.already_seen) > 200\<close>, and a cache of
  200 identifiers does not pass it. Inserting the 201st distinct identifier clears
  nothing; the cache then holds 201 identifiers, the oldest among them.
\<close>

theorem cache_of_200_not_cleared_counterexample:
  "fcard (example_cache 200) = 200
   \<and> example_tx 200 |\<notin>| example_cache 200
   \<and> query_node_for_new_mempool_txs (example_cache 200) [txs_response [example_tx 200]] =
       Some (Return [example_tx 200] (example_cache 201))
   \<and> fcard (example_cache 201) = 201
   \<and> example_tx 0 |\<in>| example_cache 201"
proof -
  have c: "clear_if_full (example_cache 200) = example_cache 200"
    by (simp add: clear_if_full_def fcard_example_cache)
  have e: "finsert (example_tx 200) (example_cache 200) = example_cache 201"
    using example_cache_Suc [of 200] by simp
  show ?thesis
    by (simp add: fcard_example_cache example_tx_in_cache txs_response_def poll_once_simps c
        collect_new_single e)
qed

end
